theory Spec2Isabelle
  imports Complex_Main "HOL-Library.Word"
begin

section \<open>JavaScript values as the bridge sees them\<close>

subsection \<open>Strings\<close>

text \<open>
  A JavaScript string is a sequence of UTF-16 code units, and \<open>length\<close>, \<open>slice\<close>,
  \<open>startsWith\<close> and \<open>includes\<close> all count and compare code units. A string is
  therefore a list of 16-bit words; \<open>js\<close> turns an ASCII literal into one.
\<close>

type_synonym jschar = "16 word"
type_synonym jsstring = "jschar list"

definition js :: "string \<Rightarrow> jsstring" where
  "js s = map of_char s"

text \<open>
  \<open>String.prototype.trim\<close> removes the code units of the ECMAScript productions
  WhiteSpace and LineTerminator from both ends; the escape \<open>\s\<close> of a regular
  expression matches exactly the same set.
\<close>

definition whiteSpace :: "jschar list" where
  "whiteSpace =
     [0x0009, 0x000A, 0x000B, 0x000C, 0x000D, 0x0020, 0x00A0, 0x1680,
      0x2000, 0x2001, 0x2002, 0x2003, 0x2004, 0x2005, 0x2006, 0x2007,
      0x2008, 0x2009, 0x200A, 0x2028, 0x2029, 0x202F, 0x205F, 0x3000, 0xFEFF]"

definition isWhiteSpace :: "jschar \<Rightarrow> bool" where
  "isWhiteSpace c = (c \<in> set whiteSpace)"

definition trimStart :: "jsstring \<Rightarrow> jsstring" where
  "trimStart s = dropWhile isWhiteSpace s"

definition trimEnd :: "jsstring \<Rightarrow> jsstring" where
  "trimEnd s = rev (dropWhile isWhiteSpace (rev s))"

definition trim :: "jsstring \<Rightarrow> jsstring" where
  "trim s = trimEnd (trimStart s)"

definition startsWith :: "jsstring \<Rightarrow> jsstring \<Rightarrow> bool" where
  "startsWith s p = (take (length p) s = p)"

fun includes_str :: "jsstring \<Rightarrow> jsstring \<Rightarrow> bool" where
  "includes_str [] p = (p = [])"
| "includes_str (c # cs) p = (startsWith (c # cs) p \<or> includes_str cs p)"

text \<open>\<open>parts.join(sep)\<close> on an array of strings.\<close>

fun join :: "jsstring \<Rightarrow> jsstring list \<Rightarrow> jsstring" where
  "join sep [] = []"
| "join sep [x] = x"
| "join sep (x # y # ys) = x @ sep @ join sep (y # ys)"

subsection \<open>Numbers\<close>

text \<open>
  A JavaScript number is a finite value, an infinity or NaN. A finite value is a real
  (the doubles are some of the reals), and comparisons of doubles are exact.
  \<open>js_less a b\<close> is \<open>a < b\<close>; any comparison with NaN is false. The one arithmetic
  operation of the program, \<open>x / 100\<close>, rounds its quotient to a double and is left to
  the platform, below.
\<close>

datatype jsnum = Fin real | PosInf | NegInf | NaN

fun js_less :: "jsnum \<Rightarrow> jsnum \<Rightarrow> bool" where
  "js_less NaN _ = False"
| "js_less _ NaN = False"
| "js_less (Fin x) (Fin y) = (x < y)"
| "js_less (Fin x) PosInf = True"
| "js_less (Fin x) NegInf = False"
| "js_less PosInf _ = False"
| "js_less NegInf (Fin y) = True"
| "js_less NegInf PosInf = True"
| "js_less NegInf NegInf = False"

fun isFinite :: "jsnum \<Rightarrow> bool" where
  "isFinite (Fin x) = True"
| "isFinite _ = False"

definition len :: "'a list \<Rightarrow> jsnum" where
  "len xs = Fin (real (length xs))"

subsection \<open>Regular expressions\<close>

text \<open>
  The fallback patterns use literal characters, the class \<open>['\<dots>]\<close>, \<open>\s+\<close>, one
  alternation, and the flag \<open>i\<close>. \<open>OneOf cs\<close> matches one code unit out of \<open>cs\<close>,
  \<open>Many1 cs\<close> one or more of them. \<open>rmatch r s\<close> lists, in the order a backtracking
  matcher tries them, what is left of \<open>s\<close> after a match of \<open>r\<close> at its start, and
  \<open>rx_test r s\<close> is \<open>r.test(s)\<close> for a pattern without the flags \<open>g\<close> and \<open>y\<close>: a
  match starting at some position.
\<close>

datatype regex =
    Eps
  | OneOf "jschar list"
  | Many1 "jschar list"
  | Seq regex regex
  | Alt regex regex

fun many1 :: "jschar list \<Rightarrow> jsstring \<Rightarrow> jsstring list" where
  "many1 cs [] = []"
| "many1 cs (c # t) = (if c \<in> set cs then many1 cs t @ [t] else [])"

fun rmatch :: "regex \<Rightarrow> jsstring \<Rightarrow> jsstring list" where
  "rmatch Eps s = [s]"
| "rmatch (OneOf cs) [] = []"
| "rmatch (OneOf cs) (c # t) = (if c \<in> set cs then [t] else [])"
| "rmatch (Many1 cs) s = many1 cs s"
| "rmatch (Seq a b) s = concat (map (rmatch b) (rmatch a s))"
| "rmatch (Alt a b) s = rmatch a s @ rmatch b s"

fun rx_test :: "regex \<Rightarrow> jsstring \<Rightarrow> bool" where
  "rx_test r [] = (rmatch r [] \<noteq> [])"
| "rx_test r (c # t) = (rmatch r (c # t) \<noteq> [] \<or> rx_test r t)"

text \<open>
  Under the flag \<open>i\<close> (without \<open>u\<close>) a pattern character matches the code units with
  the same upper-case form, and a code unit from 128 on is never identified with an
  ASCII one: an ASCII letter matches its two ASCII cases and nothing else.
\<close>

definition ci :: "char \<Rightarrow> regex" where
  "ci c =
     (let n = (of_char c :: jschar) in
      if 0x0061 \<le> n \<and> n \<le> 0x007A then OneOf [n, n - 0x0020]
      else if 0x0041 \<le> n \<and> n \<le> 0x005A then OneOf [n, n + 0x0020]
      else OneOf [n])"

definition seqs :: "regex list \<Rightarrow> regex" where
  "seqs rs = foldr Seq rs Eps"

definition lit :: "string \<Rightarrow> regex" where
  "lit s = seqs (map ci s)"

definition ws1 :: regex where
  "ws1 = Many1 whiteSpace"

text \<open>The class \<open>['\<dots>]\<close>: the ASCII apostrophe and U+2019.\<close>

definition apostrophe :: regex where
  "apostrophe = OneOf [0x0027, 0x2019]"

definition FALLBACK_PATTERNS :: "regex list" where
  "FALLBACK_PATTERNS =
     [seqs [lit ''i'', ws1, lit ''don'', apostrophe, lit ''t'', ws1, lit ''know''],
      seqs [lit ''not'', ws1, lit ''sure''],
      seqs [lit ''please'', ws1, lit ''clarify''],
      seqs [lit ''can'', ws1, lit ''you'', ws1, lit ''clarify''],
      seqs [lit ''i'', ws1, lit ''could'', ws1, lit ''not'', ws1, lit ''find''],
      seqs [lit ''couldn'', apostrophe, lit ''t'', ws1, lit ''find''],
      seqs [lit ''no'', ws1, lit ''information''],
      lit ''unsure'',
      seqs [lit ''as'', ws1, lit ''an'', ws1, lit ''ai''],
      seqs [lit ''i'', ws1, lit ''do'', ws1, lit ''not'', ws1, lit ''have'', ws1,
            lit ''enough'', ws1, lit ''context''],
      seqs [lit ''i'', ws1, lit ''can'', Alt (lit ''not'') (seqs [OneOf [0x0027], lit ''t'']),
            ws1, lit ''help'', ws1, lit ''with'', ws1, lit ''that''],
      seqs [lit ''try'', ws1, lit ''again''],
      lit ''rephrase'']"

text \<open>
  For the proofs: the language of a pattern, and three checks on its shape. A pattern
  that passes them matches only non-empty texts that neither start nor end with white
  space.
\<close>

fun lang :: "regex \<Rightarrow> jsstring set" where
  "lang Eps = {[]}"
| "lang (OneOf cs) = {[c] | c. c \<in> set cs}"
| "lang (Many1 cs) = {v. v \<noteq> [] \<and> set v \<subseteq> set cs}"
| "lang (Seq a b) = {u @ v | u v. u \<in> lang a \<and> v \<in> lang b}"
| "lang (Alt a b) = lang a \<union> lang b"

fun nonempty :: "regex \<Rightarrow> bool" where
  "nonempty Eps = False"
| "nonempty (OneOf cs) = True"
| "nonempty (Many1 cs) = True"
| "nonempty (Seq a b) = (nonempty a \<or> nonempty b)"
| "nonempty (Alt a b) = (nonempty a \<and> nonempty b)"

fun firstSolid :: "regex \<Rightarrow> bool" where
  "firstSolid Eps = True"
| "firstSolid (OneOf cs) = list_all (\<lambda>c. \<not> isWhiteSpace c) cs"
| "firstSolid (Many1 cs) = list_all (\<lambda>c. \<not> isWhiteSpace c) cs"
| "firstSolid (Seq a b) = (firstSolid a \<and> (nonempty a \<or> firstSolid b))"
| "firstSolid (Alt a b) = (firstSolid a \<and> firstSolid b)"

fun lastSolid :: "regex \<Rightarrow> bool" where
  "lastSolid Eps = True"
| "lastSolid (OneOf cs) = list_all (\<lambda>c. \<not> isWhiteSpace c) cs"
| "lastSolid (Many1 cs) = list_all (\<lambda>c. \<not> isWhiteSpace c) cs"
| "lastSolid (Seq a b) = (lastSolid b \<and> (nonempty b \<or> lastSolid a))"
| "lastSolid (Alt a b) = (lastSolid a \<and> lastSolid b)"

subsection \<open>Values\<close>

text \<open>
  Everything the bridge reads from the answering service comes out of \<open>JSON.parse\<close>:
  null, booleans, numbers, strings, arrays and objects. \<open>Undefined\<close> is what reading a
  missing property gives. An object is the list of its own properties.
\<close>

datatype jsval =
    Undefined
  | Null
  | JBool bool
  | JNum jsnum
  | JStr jsstring
  | JArr "jsval list"
  | JObj "(jsstring \<times> jsval) list"

text \<open>What the program can throw, or be thrown at.\<close>

datatype error =
    TypeError
  | SyntaxError
  | FetchFailed
  | Aborted
  | HttpError nat
  | ValidationError

text \<open>
  Five built-ins depend on tables and algorithms of the platform (the Unicode case
  mapping, the grammar and rounding of numeric literals, the shortest decimal form of a
  double, the quotient of two doubles rounded to the nearest double, the JSON grammar).
  The model takes them as given: every definition that needs one takes an \<open>engine\<close>,
  and every theorem with an engine \<open>E\<close> in it holds for all engines.
\<close>

record engine =
  toLowerCase :: "jsstring \<Rightarrow> jsstring"
  StringToNumber :: "jsstring \<Rightarrow> jsnum"
  NumberToString :: "jsnum \<Rightarrow> jsstring"
  NumberDivide :: "real \<Rightarrow> real \<Rightarrow> real"
  JSON_parse :: "jsstring \<Rightarrow> error + jsval"

fun truthy :: "jsval \<Rightarrow> bool" where
  "truthy Undefined = False"
| "truthy Null = False"
| "truthy (JBool b) = b"
| "truthy (JNum n) = (n \<noteq> Fin 0 \<and> n \<noteq> NaN)"
| "truthy (JStr s) = (s \<noteq> [])"
| "truthy (JArr xs) = True"
| "truthy (JObj kvs) = True"

fun nullish :: "jsval \<Rightarrow> bool" where
  "nullish Undefined = True"
| "nullish Null = True"
| "nullish _ = False"

text \<open>
  \<open>field v k\<close> is \<open>v?.k\<close>: undefined when \<open>v\<close> is null or undefined, the own property
  of an object, and undefined on every other value, since none of the names the program
  reads (\<open>event\<close>, \<open>data\<close>, \<open>answer\<close>, \<open>sources\<close>, \<open>title\<close>, \<open>url\<close> and the score
  names) is a property of a built-in prototype. \<open>fieldOf v k\<close> is \<open>v.k\<close>, which throws
  on null and undefined. \<open>a ?? b\<close> is \<open>coalesce a b\<close> and \<open>a || b\<close> is \<open>either a b\<close>.
\<close>

fun field :: "jsval \<Rightarrow> jsstring \<Rightarrow> jsval" where
  "field (JObj kvs) k = (case map_of kvs k of Some x \<Rightarrow> x | None \<Rightarrow> Undefined)"
| "field _ k = Undefined"

definition fieldOf :: "jsval \<Rightarrow> jsstring \<Rightarrow> error + jsval" where
  "fieldOf v k = (if nullish v then Inl TypeError else Inr (field v k))"

definition coalesce :: "jsval \<Rightarrow> jsval \<Rightarrow> jsval" where
  "coalesce a b = (if nullish a then b else a)"

definition either :: "jsval \<Rightarrow> jsval \<Rightarrow> jsval" where
  "either a b = (if truthy a then a else b)"

text \<open>Evaluating a list of computations from left to right: the first throw wins.\<close>

fun collect :: "(error + 'a) list \<Rightarrow> error + 'a list" where
  "collect [] = Inr []"
| "collect (x # xs) =
     (case x of
        Inl e \<Rightarrow> Inl e
      | Inr v \<Rightarrow> (case collect xs of Inl e \<Rightarrow> Inl e | Inr vs \<Rightarrow> Inr (v # vs)))"

text \<open>
  \<open>ToString\<close> and \<open>ToNumber\<close> are the conversions behind template literals,
  \<open>Array.prototype.join\<close> and \<open>Number(v)\<close>. An array converts through \<open>join(",")\<close>,
  where null and undefined elements give the empty string. An object converts to
  \<open>[object Object]\<close>, unless it has an own property \<open>toString\<close>: a parsed value is never
  a function, so neither \<open>toString\<close> nor the inherited \<open>valueOf\<close> yields a primitive
  then and the conversion throws.
\<close>

fun ToString :: "engine \<Rightarrow> jsval \<Rightarrow> error + jsstring" where
  "ToString E Undefined = Inr (js ''undefined'')"
| "ToString E Null = Inr (js ''null'')"
| "ToString E (JBool b) = Inr (if b then js ''true'' else js ''false'')"
| "ToString E (JNum n) = Inr (NumberToString E n)"
| "ToString E (JStr s) = Inr s"
| "ToString E (JArr xs) =
     (case collect (map (\<lambda>x. if nullish x then Inr [] else ToString E x) xs) of
        Inl e \<Rightarrow> Inl e
      | Inr parts \<Rightarrow> Inr (join (js '','') parts))"
| "ToString E (JObj kvs) =
     (if map_of kvs (js ''toString'') \<noteq> None then Inl TypeError
      else Inr (js ''[object Object]''))"

fun ToNumber :: "engine \<Rightarrow> jsval \<Rightarrow> error + jsnum" where
  "ToNumber E Undefined = Inr NaN"
| "ToNumber E Null = Inr (Fin 0)"
| "ToNumber E (JBool b) = Inr (if b then Fin 1 else Fin 0)"
| "ToNumber E (JNum n) = Inr n"
| "ToNumber E (JStr s) = Inr (StringToNumber E s)"
| "ToNumber E v =
     (case ToString E v of Inl e \<Rightarrow> Inl e | Inr s \<Rightarrow> Inr (StringToNumber E s))"

text \<open>
  An engine to run examples on. The examples are ASCII text, they convert no string and
  no number to each other, they divide nothing, and the one body they parse is no JSON
  text; on these inputs the engine below computes what ECMAScript prescribes.
\<close>

definition asciiLower :: "jschar \<Rightarrow> jschar" where
  "asciiLower c = (if 0x0041 \<le> c \<and> c \<le> 0x005A then c + 0x0020 else c)"

definition asciiEngine :: engine where
  "asciiEngine =
     \<lparr> toLowerCase = map asciiLower,
       StringToNumber = (\<lambda>s. NaN),
       NumberToString = (\<lambda>n. []),
       NumberDivide = (\<lambda>x y. x / y),
       JSON_parse = (\<lambda>s. Inl SyntaxError) \<rparr>"

section \<open>Configuration\<close>

text \<open>
  The tuning constants are computed once at start-up: \<open>STRICT\<close> is false only when
  \<open>STRICT_ANSWERS\<close> reads \<open>false\<close>; \<open>MIN_SRC\<close> and \<open>MIN_LEN\<close> are
  \<open>Math.max(0, parseInt(\<dots>))\<close> and \<open>MIN_CONF\<close> is
  \<open>Math.max(0, Math.min(1, parseFloat(\<dots>)))\<close>, each of which is NaN when the variable
  does not parse. The gate reads them as they are.
\<close>

record config =
  STRICT :: bool
  MIN_SRC :: jsnum
  MIN_LEN :: jsnum
  MIN_CONF :: jsnum

text \<open>The defaults: strict, one source, 40 characters, confidence 0.35.\<close>

definition defaults :: config where
  "defaults = \<lparr> STRICT = True, MIN_SRC = Fin 1, MIN_LEN = Fin 40, MIN_CONF = Fin 0.35 \<rparr>"

section \<open>Strict answer heuristics\<close>

definition looksLikeFallback :: "config \<Rightarrow> jsstring \<Rightarrow> bool" where
  "looksLikeFallback cfg text =
     (if text = [] then True
      else let t = trim text in
        if length t = 0 then True
        else if js_less (len t) (MIN_LEN cfg) then True
        else list_ex (\<lambda>re. rx_test re t) FALLBACK_PATTERNS)"

text \<open>
  \<open>extractConfidence\<close> reads any confidence-like field. Its two loops return at the
  first candidate whose conversion is finite; \<open>firstFinite\<close> is that loop, and a
  conversion that throws ends it.
\<close>

fun firstFinite :: "engine \<Rightarrow> jsval list \<Rightarrow> error + jsnum option" where
  "firstFinite E [] = Inr None"
| "firstFinite E (v # vs) =
     (case ToNumber E v of
        Inl e \<Rightarrow> Inl e
      | Inr n \<Rightarrow> if isFinite n then Inr (Some n) else firstFinite E vs)"

definition payloadFields :: "jsstring list" where
  "payloadFields =
     [js ''confidence'', js ''score'', js ''relevance'', js ''similarity'', js ''lookup_score'']"

definition sourceScore :: "jsval \<Rightarrow> jsval" where
  "sourceScore s =
     coalesce (coalesce (field s (js ''score'')) (field s (js ''confidence'')))
       (field s (js ''similarity''))"

definition extractConfidence :: "engine \<Rightarrow> jsval \<Rightarrow> error + jsnum" where
  "extractConfidence E candidate =
     (let d = either (field candidate (js ''data'')) (JObj []);
          cands = map (field d) payloadFields
      in case firstFinite E cands of
           Inl e \<Rightarrow> Inl e
         | Inr (Some n) \<Rightarrow> Inr n
         | Inr None \<Rightarrow>
             (let sources = (case field d (js ''sources'') of JArr xs \<Rightarrow> xs | _ \<Rightarrow> [])
              in case firstFinite E (map sourceScore sources) of
                   Inl e \<Rightarrow> Inl e
                 | Inr (Some n) \<Rightarrow> Inr n
                 | Inr None \<Rightarrow> Inr NaN))"

fun normalizeConfidence :: "engine \<Rightarrow> jsnum \<Rightarrow> jsnum" where
  "normalizeConfidence E (Fin x) = (if 1 < x then Fin (NumberDivide E x 100) else Fin x)"
| "normalizeConfidence E _ = NaN"

definition passesStrictGate :: "engine \<Rightarrow> config \<Rightarrow> jsstring \<Rightarrow> jsval \<Rightarrow> jsval \<Rightarrow> error + bool" where
  "passesStrictGate E cfg answer sources chosen =
     (if \<not> STRICT cfg then Inr True
      else if looksLikeFallback cfg answer then Inr False
      else
        let src = (case sources of JArr xs \<Rightarrow> filter truthy xs | _ \<Rightarrow> [])
        in if js_less (Fin 0) (MIN_SRC cfg) \<and> js_less (len src) (MIN_SRC cfg) then Inr False
           else case extractConfidence E chosen of
                  Inl e \<Rightarrow> Inl e
                | Inr raw \<Rightarrow>
                    let conf = normalizeConfidence E raw
                    in if isFinite conf \<and> js_less conf (MIN_CONF cfg) then Inr False
                       else Inr True)"

section \<open>Conversation tracking\<close>

text \<open>
  \<open>convoByUser\<close> is a map from user ids to conversation ids. A new id is
  \<open>crypto.randomUUID()\<close> when the platform has it, and otherwise the text of
  \<open>Date.now()\<close>, a dash and the text of \<open>Math.random()\<close>; what the platform
  returns at a call is the \<open>entropy\<close> of that call.
\<close>

type_synonym convo = "jsstring \<rightharpoonup> jsstring"

record entropy =
  randomUUID :: "jsstring option"
  now :: jsstring
  random :: jsstring

definition newId :: "entropy \<Rightarrow> jsstring" where
  "newId en =
     (case randomUUID en of
        Some u \<Rightarrow> if u \<noteq> [] then u else now en @ js ''-'' @ random en
      | None \<Rightarrow> now en @ js ''-'' @ random en)"

definition getConversationIdForUser :: "entropy \<Rightarrow> convo \<Rightarrow> jsstring \<Rightarrow> jsstring \<times> convo" where
  "getConversationIdForUser en convoByUser userId =
     (let fresh = (newId en, convoByUser(userId \<mapsto> newId en))
      in case convoByUser userId of
           None \<Rightarrow> fresh
         | Some i \<Rightarrow> if i = [] then fresh else (i, convoByUser))"

section \<open>The answering client\<close>

text \<open>
  What the program does to the outside is a list of effects, in order: lines on the
  console (level and fixed text), the request to the answering service (conversation id
  and question), and the operations on the chat platform.
\<close>

datatype level = Info | Warn | Err

datatype effect =
    Console level string
  | Request jsstring jsstring
  | Typing
  | Reply jsstring
  | Send jsstring

text \<open>
  The outcome of the request: \<open>fetch\<close> rejects (a network failure, or the abort that
  the 20 second timer triggers), or there is a response with a status and a body, whose
  reading can fail as well. \<open>res.ok\<close> holds for the statuses 200 to 299.
\<close>

datatype http = Rejected error | Response nat "error + jsstring"

record ask_result =
  ok :: bool
  answer :: jsstring
  sources :: "jsval list"
  chosen :: jsval

definition tagged :: "jsstring \<Rightarrow> jsval \<Rightarrow> bool" where
  "tagged t e = (field e (js ''event'') = JStr t)"

definition chooseEvent :: "jsval list \<Rightarrow> jsval" where
  "chooseEvent events =
     (let lookup = (case List.find (tagged (js ''lookup_answer'')) events of
                      Some e \<Rightarrow> e | None \<Rightarrow> Undefined);
          simple = (case List.find (tagged (js ''answer'')) events of
                      Some e \<Rightarrow> e | None \<Rightarrow> Undefined);
          first = (case events of [] \<Rightarrow> Undefined | e # _ \<Rightarrow> e)
      in either (either lookup simple) first)"

text \<open>
  \<open>chosen?.data?.answer?.trim() || ''\<close>: a missing or null answer gives the empty
  string, a string is trimmed, and anything else has no method \<open>trim\<close>, so that the
  call throws.
\<close>

definition answerOf :: "jsval \<Rightarrow> error + jsstring" where
  "answerOf c =
     (case field (field c (js ''data'')) (js ''answer'') of
        Undefined \<Rightarrow> Inr []
      | Null \<Rightarrow> Inr []
      | JStr s \<Rightarrow> Inr (if trim s \<noteq> [] then trim s else [])
      | _ \<Rightarrow> Inl TypeError)"

definition sourcesOf :: "jsval \<Rightarrow> jsval list" where
  "sourcesOf c =
     (case field (field c (js ''data'')) (js ''sources'') of JArr xs \<Rightarrow> xs | _ \<Rightarrow> [])"

text \<open>The body of the \<open>try\<close> block: the console lines it wrote, and its result or throw.\<close>

definition askDocsBot_try :: "engine \<Rightarrow> config \<Rightarrow> http \<Rightarrow> effect list \<times> (error + ask_result)" where
  "askDocsBot_try E cfg res =
     (case res of
        Rejected e \<Rightarrow> ([], Inl e)
      | Response status body \<Rightarrow>
          if \<not> (200 \<le> status \<and> status \<le> 299)
          then ([Console Info ''[DocsBot] Response status:'', Console Err ''[DocsBot] API error:''],
                Inl (HttpError status))
          else
            (case body of
               Inl e \<Rightarrow> ([Console Info ''[DocsBot] Response status:''], Inl e)
             | Inr responseText \<Rightarrow>
                 if responseText = [] \<or> responseText = js ''null''
                 then ([Console Info ''[DocsBot] Response status:'',
                        Console Warn ''[DocsBot] Received null response''],
                       Inr \<lparr> ok = False, answer = [], sources = [], chosen = Undefined \<rparr>)
                 else
                   (case JSON_parse E responseText of
                      Inl e \<Rightarrow> ([Console Info ''[DocsBot] Response status:''], Inl e)
                    | Inr (JArr events) \<Rightarrow>
                        (let c = chooseEvent events in
                         case answerOf c of
                           Inl e \<Rightarrow> ([Console Info ''[DocsBot] Response status:''], Inl e)
                         | Inr a \<Rightarrow>
                             (case passesStrictGate E cfg a (JArr (sourcesOf c)) c of
                                Inl e \<Rightarrow> ([Console Info ''[DocsBot] Response status:''], Inl e)
                              | Inr g \<Rightarrow>
                                  ([Console Info ''[DocsBot] Response status:'',
                                    Console Info (if g then ''[DocsBot] Answer gate: PASS''
                                                  else ''[DocsBot] Answer gate: BLOCK'')],
                                   Inr \<lparr> ok = g, answer = a, sources = sourcesOf c, chosen = c \<rparr>)))
                    | Inr _ \<Rightarrow> ([Console Info ''[DocsBot] Response status:''], Inl TypeError))))"

definition askDocsBot ::
  "engine \<Rightarrow> config \<Rightarrow> entropy \<Rightarrow> http \<Rightarrow> convo \<Rightarrow> jsstring \<Rightarrow> jsstring
     \<Rightarrow> ask_result \<times> effect list \<times> convo" where
  "askDocsBot E cfg en res convoByUser question userId =
     (let (conversationId, convo') = getConversationIdForUser en convoByUser userId;
          (lines, r) = askDocsBot_try E cfg res;
          before = [Console Info ''[DocsBot] Calling API with question:'',
                    Request conversationId question]
      in case r of
           Inr result \<Rightarrow> (result, before @ lines, convo')
         | Inl e \<Rightarrow>
             (\<lparr> ok = False, answer = [], sources = [], chosen = Undefined \<rparr>,
              before @ lines @ [Console Err ''[DocsBot] Error:''], convo'))"

section \<open>Formatting\<close>

text \<open>
  The reply to the slash command is an embed: the answer cut at 4000 code units, and a
  field \<open>Sources\<close> built from the first five sources, cut at 1024. The builder of the
  chat library validates what it is given: \<open>setDescription\<close> takes a string of 1 to
  4096 code units and throws on the empty one, which the handler does not guard against
  (it does guard \<open>addFields\<close> against an empty source block). Reading \<open>s.title\<close> throws
  when the source is null.
\<close>

record embed =
  description :: jsstring
  sourcesField :: "jsstring option"

definition sourceLine :: "engine \<Rightarrow> jsval \<Rightarrow> error + jsstring" where
  "sourceLine E s =
     (case fieldOf s (js ''title'') of
        Inl e \<Rightarrow> Inl e
      | Inr title \<Rightarrow>
          (case ToString E (either title (JStr (js ''Source''))) of
             Inl e \<Rightarrow> Inl e
           | Inr t \<Rightarrow>
               (case fieldOf s (js ''url'') of
                  Inl e \<Rightarrow> Inl e
                | Inr url \<Rightarrow>
                    (case ToString E (either url (JStr (js ''#''))) of
                       Inl e \<Rightarrow> Inl e
                     | Inr u \<Rightarrow> Inr ([0x2022] @ js '' ['' @ t @ js ''](''  @ u @ js '')'')))))"

definition sourceLines :: "engine \<Rightarrow> jsval list \<Rightarrow> error + jsstring list" where
  "sourceLines E srcs = collect (map (sourceLine E) (take 5 srcs))"

definition buildEmbed :: "engine \<Rightarrow> jsstring \<Rightarrow> jsval list \<Rightarrow> error + embed" where
  "buildEmbed E ans srcs =
     (if take 4000 ans = [] then Inl ValidationError
      else if length srcs > 0 then
        (case sourceLines E srcs of
           Inl e \<Rightarrow> Inl e
         | Inr ls \<Rightarrow>
             (let sourceList = take 1024 (join [0x000A] ls)
              in Inr \<lparr> description = take 4000 ans,
                       sourcesField = (if length sourceList > 0 then Some sourceList else None) \<rparr>))
      else Inr \<lparr> description = take 4000 ans, sourcesField = None \<rparr>)"

text \<open>
  The reply in a channel is plain text: the mention, the question, the answer, the
  links of the sources, and a cut at 2000 code units.
\<close>

definition sourceLink :: "engine \<Rightarrow> jsval \<Rightarrow> error + jsval" where
  "sourceLink E s =
     (case fieldOf s (js ''url'') of
        Inl e \<Rightarrow> Inl e
      | Inr url \<Rightarrow>
          if truthy url then Inr url
          else fieldOf s (js ''title''))"

definition sourcesHeading :: jsstring where
  "sourcesHeading = [0x000A, 0x000A, 0xD83D, 0xDCDA] @ js '' **Sources:**'' @ [0x000A]"

definition composeResponse ::
  "engine \<Rightarrow> jsstring \<Rightarrow> jsstring \<Rightarrow> jsstring \<Rightarrow> jsval list \<Rightarrow> error + jsstring" where
  "composeResponse E authorId question ans srcs =
     (let response = js ''<@'' @ authorId @ js ''>'' @ [0x000A, 0x000A] @ js ''**'' @ question
                       @ js ''**'' @ [0x000A, 0x000A] @ ans
      in if length srcs > 0 then
           (case collect (map (sourceLink E) srcs) of
              Inl e \<Rightarrow> Inl e
            | Inr links \<Rightarrow>
                (case collect (map (ToString E) (filter truthy links)) of
                   Inl e \<Rightarrow> Inl e
                 | Inr parts \<Rightarrow>
                     (let sourceLinks = join [0x000A] parts
                      in if sourceLinks \<noteq> [] then Inr (response @ sourcesHeading @ sourceLinks)
                         else Inr response)))
         else Inr response)"

definition buildResponse ::
  "engine \<Rightarrow> jsstring \<Rightarrow> jsstring \<Rightarrow> jsstring \<Rightarrow> jsval list \<Rightarrow> error + jsstring" where
  "buildResponse E authorId question ans srcs =
     (case composeResponse E authorId question ans srcs of
        Inl e \<Rightarrow> Inl e
      | Inr response \<Rightarrow>
          Inr (if length response > 2000 then take 1997 response @ js ''...'' else response))"

section \<open>The message handler\<close>

record message =
  author_bot :: bool
  author_id :: jsstring
  content :: jsstring
  channelId :: jsstring
  mentionsBot :: bool

text \<open>
  \<open>content.replace(/<@!?(\d+)>/g, '')\<close>: \<open>mentionAt s\<close> is what follows a mention at
  the start of \<open>s\<close>, and the scan goes on after each mention it removes.
\<close>

definition isDigit :: "jschar \<Rightarrow> bool" where
  "isDigit c = (0x0030 \<le> c \<and> c \<le> 0x0039)"

definition mentionAt :: "jsstring \<Rightarrow> jsstring option" where
  "mentionAt s =
     (if startsWith s (js ''<@'') then
        (let r1 = drop 2 s;
             r2 = (if startsWith r1 (js ''!'') then drop 1 r1 else r1);
             r3 = dropWhile isDigit r2
         in if length r3 < length r2 \<and> startsWith r3 (js ''>'') then Some (drop 1 r3) else None)
      else None)"

function stripMentions :: "jsstring \<Rightarrow> jsstring" where
  "stripMentions [] = []"
| "stripMentions (c # t) =
     (case mentionAt (c # t) of
        Some rest \<Rightarrow> stripMentions rest
      | None \<Rightarrow> c # stripMentions t)"
  by pat_completeness auto
termination
proof (relation "measure length")
  show "wf (measure (length :: jsstring \<Rightarrow> nat))"
    by simp
next
  fix c :: jschar and t rest :: jsstring
  assume "mentionAt (c # t) = Some rest"
  then have "length rest < length (c # t)"
    unfolding mentionAt_def Let_def by (auto split: if_splits)
  then show "(rest, c # t) \<in> measure length"
    by simp
next
  fix c :: jschar and t :: jsstring
  show "(t, c # t) \<in> measure length"
    by simp
qed

text \<open>
  The test on a message of an auto-answer channel that does not mention the bot; \<open>text\<close>
  is the trimmed, lower-cased content. The handler returns without answering when it
  is false.
\<close>

definition skipWords :: "jsstring list" where
  "skipWords =
     [js ''gm'', js ''gn'', js ''thanks'', js ''thank you'', js ''ty'', js ''ok'', js ''nice'',
      js ''lol'']"

definition questionIndicators :: "jsstring list" where
  "questionIndicators =
     [js ''what'', js ''how'', js ''why'', js ''when'', js ''where'', js ''who'', js ''can'',
      js ''does,'', js ''is'']"

definition domainKeywords :: "jsstring list" where
  "domainKeywords = [js ''iaero'', js ''aero'', js ''stake'', js ''vault'', js ''token'', js ''reward'']"

definition isLikelyQuestion :: "jsstring \<Rightarrow> bool" where
  "isLikelyQuestion text =
     (if length text < 5 then False
      else if startsWith text (js ''!'') \<or> startsWith text (js ''/'') \<or> startsWith text (js ''.'')
      then False
      else if list_ex (\<lambda>word. text = word \<or> startsWith text (word @ js '' '')) skipWords
      then False
      else
        (let hasQuestion = (includes_str text (js ''?'')
                \<or> list_ex (\<lambda>w. startsWith text (w @ js '' '')) questionIndicators);
             hasKeywords = list_ex (\<lambda>k. includes_str text k) domainKeywords
         in if \<not> hasQuestion \<and> \<not> hasKeywords then False else True))"

definition resetNotice :: jsstring where
  "resetNotice = [0xD83E, 0xDDF9] @ js '' Started a new conversation. Ask away!''"

text \<open>
  The second half of the handler, from the typing indicator on: ask, stay silent when
  the gate blocks, otherwise send the reply. A throw while the reply is built is caught
  by the handler's own \<open>try\<close> and only logged.
\<close>

definition answerMessage ::
  "engine \<Rightarrow> config \<Rightarrow> entropy \<Rightarrow> http \<Rightarrow> convo \<Rightarrow> message \<Rightarrow> jsstring
     \<Rightarrow> convo \<times> effect list" where
  "answerMessage E cfg en res convoByUser msg question =
     (let (result, fx, convo') = askDocsBot E cfg en res convoByUser question (author_id msg)
      in if \<not> ok result
         then (convo', [Typing] @ fx
                 @ [Console Info ''[Auto/Mention] Suppressed low-confidence answer''])
         else
           (case buildResponse E (author_id msg) question (answer result) (sources result) of
              Inl e \<Rightarrow> (convo', [Typing] @ fx @ [Console Err ''[MessageCreate] Unexpected error:''])
            | Inr response \<Rightarrow>
                (convo', [Typing] @ fx @ [Send response, Console Info ''[Message sent] ID:''])))"

definition onMessageCreate ::
  "engine \<Rightarrow> config \<Rightarrow> jsstring set \<Rightarrow> entropy \<Rightarrow> http \<Rightarrow> convo \<Rightarrow> message
     \<Rightarrow> convo \<times> effect list" where
  "onMessageCreate E cfg autoChannels en res convoByUser msg =
     (if author_bot msg then (convoByUser, [])
      else if toLowerCase E (trim (content msg)) = js ''new topic''
      then (convoByUser(author_id msg := None), [Reply resetNotice])
      else
        (let isAutoChannel = (channelId msg \<in> autoChannels);
             isMentioned = mentionsBot msg;
             question = (if isMentioned then trim (stripMentions (content msg)) else content msg)
         in if \<not> isMentioned \<and> \<not> isAutoChannel then (convoByUser, [])
            else if isMentioned \<and> question = [] then (convoByUser, [])
            else if isAutoChannel \<and> \<not> isMentioned
                    \<and> \<not> isLikelyQuestion (toLowerCase E (trim (content msg)))
            then (convoByUser, [])
            else
              (let (convo', fx) = answerMessage E cfg en res convoByUser msg question
               in (convo', (if isMentioned then Console Info ''[Mention] User asked:''
                            else Console Info ''[Auto-answer] Detected question:'') # fx))))"

section \<open>What the specification says, in its own words\<close>

text \<open>
  The confidence of an event as the specification describes it: the payload fields
  \<open>confidence\<close>, \<open>score\<close>, \<open>relevance\<close>, \<open>similarity\<close> and \<open>lookup_score\<close> in
  order, then the score fields of every source, and of these the first that is a finite
  number.
\<close>

definition claimed_candidates :: "jsval \<Rightarrow> jsval list" where
  "claimed_candidates ev =
     (let d = field ev (js ''data'')
      in map (field d) payloadFields
         @ concat (map (\<lambda>s. [field s (js ''score''), field s (js ''confidence''),
                               field s (js ''similarity'')])
                     (case field d (js ''sources'') of JArr xs \<Rightarrow> xs | _ \<Rightarrow> [])))"

fun finiteNumber :: "jsval \<Rightarrow> bool" where
  "finiteNumber (JNum (Fin x)) = True"
| "finiteNumber _ = False"

definition claimed_confidence :: "jsval \<Rightarrow> jsval option" where
  "claimed_confidence ev = List.find finiteNumber (claimed_candidates ev)"

text \<open>
  What the code converts, in order: the five payload fields, then for every source the
  first of \<open>score\<close>, \<open>confidence\<close> and \<open>similarity\<close> that is neither null nor
  undefined.
\<close>

definition candidates :: "jsval \<Rightarrow> jsval list" where
  "candidates ev =
     (let d = either (field ev (js ''data'')) (JObj [])
      in map (field d) payloadFields
         @ map sourceScore (case field d (js ''sources'') of JArr xs \<Rightarrow> xs | _ \<Rightarrow> []))"

text \<open>
  The event of an array as the specification chooses it: the first tagged
  \<open>lookup_answer\<close>, else the first tagged \<open>answer\<close>, else the first element, and none
  when the array is empty.
\<close>

definition spec_chosen :: "jsval list \<Rightarrow> jsval option" where
  "spec_chosen events =
     (case List.find (tagged (js ''lookup_answer'')) events of
        Some e \<Rightarrow> Some e
      | None \<Rightarrow>
          (case List.find (tagged (js ''answer'')) events of
             Some e \<Rightarrow> Some e
           | None \<Rightarrow> (case events of [] \<Rightarrow> None | e # _ \<Rightarrow> Some e)))"

text \<open>
  The failures of the request: \<open>fetch\<close> rejects, the status is no success, the body
  cannot be read, or the body is a text that does not parse.
\<close>

definition hardFailure :: "engine \<Rightarrow> http \<Rightarrow> bool" where
  "hardFailure E res =
     (case res of
        Rejected e \<Rightarrow> True
      | Response status body \<Rightarrow>
          (if 200 \<le> status \<and> status \<le> 299
           then (case body of
                   Inl e \<Rightarrow> True
                 | Inr t \<Rightarrow> t \<noteq> [] \<and> t \<noteq> js ''null''
                     \<and> (case JSON_parse E t of Inl e \<Rightarrow> True | Inr v \<Rightarrow> False))
           else True))"

text \<open>
  A source as the data model has it: an object whose \<open>title\<close> and \<open>url\<close> are strings
  where present.
\<close>

fun textOrAbsent :: "jsval \<Rightarrow> bool" where
  "textOrAbsent Undefined = True"
| "textOrAbsent (JStr s) = True"
| "textOrAbsent _ = False"

fun plainSource :: "jsval \<Rightarrow> bool" where
  "plainSource (JObj kvs) =
     (textOrAbsent (field (JObj kvs) (js ''title'')) \<and> textOrAbsent (field (JObj kvs) (js ''url'')))"
| "plainSource _ = False"

text \<open>An answer of 43 characters that no fallback pattern matches, for the examples.\<close>

definition sampleAnswer :: jsstring where
  "sampleAnswer = js ''The vault pays staking rewards every epoch.''"

section \<open>Properties of the patterns\<close>

lemma many1_set: "set (many1 cs s) = {t. \<exists>v. v \<noteq> [] \<and> set v \<subseteq> set cs \<and> s = v @ t}"
proof (induction s)
  case Nil
  then show ?case by simp
next
  case (Cons c s)
  show ?case
  proof (cases "c \<in> set cs")
    case True
    have "{t. \<exists>v. v \<noteq> [] \<and> set v \<subseteq> set cs \<and> c # s = v @ t}
        = {t. \<exists>v. v \<noteq> [] \<and> set v \<subseteq> set cs \<and> s = v @ t} \<union> {s}" (is "?L = ?R")
    proof
      show "?L \<subseteq> ?R"
      proof
        fix t assume "t \<in> ?L"
        then obtain v where v: "v \<noteq> []" "set v \<subseteq> set cs" "c # s = v @ t" by blast
        then obtain v' where v': "v = c # v'" "s = v' @ t"
          by (cases v) auto
        show "t \<in> ?R"
        proof (cases "v' = []")
          case True with v' show ?thesis by simp
        next
          case False with v v' show ?thesis by auto
        qed
      qed
      show "?R \<subseteq> ?L"
      proof
        fix t assume "t \<in> ?R"
        then consider v where "v \<noteq> []" "set v \<subseteq> set cs" "s = v @ t" | "t = s" by blast
        then show "t \<in> ?L"
        proof cases
          case 1
          with True have "c # v \<noteq> [] \<and> set (c # v) \<subseteq> set cs \<and> c # s = (c # v) @ t" by simp
          then show ?thesis by blast
        next
          case 2
          with True have "[c] \<noteq> [] \<and> set [c] \<subseteq> set cs \<and> c # s = [c] @ t" by simp
          then show ?thesis by blast
        qed
      qed
    qed
    with True Cons show ?thesis by simp
  next
    case False
    have "\<not> (\<exists>v. v \<noteq> [] \<and> set v \<subseteq> set cs \<and> c # s = v @ t)" for t
    proof
      assume "\<exists>v. v \<noteq> [] \<and> set v \<subseteq> set cs \<and> c # s = v @ t"
      then obtain v where v: "v \<noteq> []" "set v \<subseteq> set cs" "c # s = v @ t" by blast
      then have "hd v = c" by (cases v) auto
      with v False show False by (cases v) auto
    qed
    with False show ?thesis by simp
  qed
qed

lemma rmatch_set: "set (rmatch r s) = {t. \<exists>v \<in> lang r. s = v @ t}"
proof (induction r arbitrary: s)
  case Eps
  then show ?case by auto
next
  case (OneOf cs)
  then show ?case by (cases s) auto
next
  case (Many1 cs)
  then show ?case by (simp add: many1_set)
next
  case (Seq a b)
  then show ?case by auto metis+
next
  case (Alt a b)
  then show ?case by auto
qed

lemma rx_test_iff: "rx_test r s \<longleftrightarrow> (\<exists>u v w. v \<in> lang r \<and> s = u @ v @ w)"
proof (induction s)
  case Nil
  have "rmatch r [] \<noteq> [] \<longleftrightarrow> set (rmatch r []) \<noteq> {}" by simp
  then show ?case by (simp add: rmatch_set)
next
  case (Cons c t)
  have "rmatch r (c # t) \<noteq> [] \<longleftrightarrow> set (rmatch r (c # t)) \<noteq> {}" by simp
  also have "\<dots> \<longleftrightarrow> (\<exists>v w. v \<in> lang r \<and> c # t = v @ w)" by (auto simp: rmatch_set)
  finally have here: "rmatch r (c # t) \<noteq> [] \<longleftrightarrow> (\<exists>v w. v \<in> lang r \<and> c # t = [] @ v @ w)" by simp
  show ?case
  proof
    assume "rx_test r (c # t)"
    then consider "rmatch r (c # t) \<noteq> []" | "rx_test r t" by auto
    then show "\<exists>u v w. v \<in> lang r \<and> c # t = u @ v @ w"
    proof cases
      case 1 with here show ?thesis by blast
    next
      case 2
      with Cons obtain u v w where "v \<in> lang r" "t = u @ v @ w" by blast
      then have "v \<in> lang r \<and> c # t = (c # u) @ v @ w" by simp
      then show ?thesis by blast
    qed
  next
    assume "\<exists>u v w. v \<in> lang r \<and> c # t = u @ v @ w"
    then obtain u v w where uvw: "v \<in> lang r" "c # t = u @ v @ w" by blast
    show "rx_test r (c # t)"
    proof (cases u)
      case Nil
      with uvw have "\<exists>v w. v \<in> lang r \<and> c # t = [] @ v @ w" by auto
      with here have "rmatch r (c # t) \<noteq> []" by blast
      then show ?thesis by simp
    next
      case (Cons a u')
      with uvw have "t = u' @ v @ w" by simp
      with uvw Cons.IH show ?thesis by auto
    qed
  qed
qed


lemma nonempty_lang: "nonempty r \<Longrightarrow> [] \<notin> lang r"
  by (induction r) auto

lemma firstSolid_lang: "firstSolid r \<Longrightarrow> v \<in> lang r \<Longrightarrow> v \<noteq> [] \<Longrightarrow> \<not> isWhiteSpace (hd v)"
proof (induction r arbitrary: v)
  case (Seq a b)
  from Seq.prems obtain x y where xy: "v = x @ y" "x \<in> lang a" "y \<in> lang b" by auto
  show ?case
  proof (cases "x = []")
    case True
    with xy Seq.prems have "\<not> nonempty a" using nonempty_lang by blast
    with Seq.prems have "firstSolid b" by simp
    with Seq.IH(2) [of y] xy True Seq.prems show ?thesis by simp
  next
    case False
    with Seq.IH(1) [of x] xy Seq.prems show ?thesis by simp
  qed
qed (auto simp: list_all_iff hd_conv_nth subset_eq)

lemma lastSolid_lang: "lastSolid r \<Longrightarrow> v \<in> lang r \<Longrightarrow> v \<noteq> [] \<Longrightarrow> \<not> isWhiteSpace (last v)"
proof (induction r arbitrary: v)
  case (Seq a b)
  from Seq.prems obtain x y where xy: "v = x @ y" "x \<in> lang a" "y \<in> lang b" by auto
  show ?case
  proof (cases "y = []")
    case True
    with xy Seq.prems have "\<not> nonempty b" using nonempty_lang by blast
    with Seq.prems have "lastSolid a" by simp
    with Seq.IH(1) [of x] xy True Seq.prems show ?thesis by simp
  next
    case False
    with Seq.IH(2) [of y] xy Seq.prems show ?thesis by simp
  qed
qed (auto simp: list_all_iff subset_eq)

lemma dropWhile_keeps:
  assumes "v \<noteq> []" and "\<not> P (hd v)"
  shows "\<exists>u'. dropWhile P (u @ v @ w) = u' @ v @ w"
proof (cases "\<forall>x \<in> set u. P x")
  case True
  from assms have "dropWhile P (v @ w) = v @ w" by (cases v) auto
  with True have "dropWhile P (u @ v @ w) = [] @ v @ w" by (simp add: dropWhile_append)
  then show ?thesis by blast
next
  case False
  then have "dropWhile P (u @ v @ w) = dropWhile P u @ v @ w" by (auto simp: dropWhile_append)
  then show ?thesis by blast
qed

lemma trim_keeps:
  assumes "v \<noteq> []" and "\<not> isWhiteSpace (hd v)" and "\<not> isWhiteSpace (last v)"
  shows "\<exists>u' w'. trim (u @ v @ w) = u' @ v @ w'"
proof -
  have "\<exists>u'. dropWhile isWhiteSpace (u @ v @ w) = u' @ v @ w"
    using assms(1,2) by (rule dropWhile_keeps)
  then obtain u' where u': "dropWhile isWhiteSpace (u @ v @ w) = u' @ v @ w" ..
  have r: "rev v \<noteq> []" "\<not> isWhiteSpace (hd (rev v))"
    using assms by (simp_all add: hd_rev)
  have "\<exists>w'. dropWhile isWhiteSpace (rev w @ rev v @ rev u') = w' @ rev v @ rev u'"
    using r by (rule dropWhile_keeps)
  then obtain w' where
    "dropWhile isWhiteSpace (rev w @ rev v @ rev u') = w' @ rev v @ rev u'" ..
  with u' have "trim (u @ v @ w) = u' @ v @ rev w'"
    by (simp add: trim_def trimStart_def trimEnd_def)
  then show ?thesis by blast
qed

lemma rx_test_trim:
  assumes "nonempty r" "firstSolid r" "lastSolid r" and "rx_test r s"
  shows "rx_test r (trim s)"
proof -
  from assms(4) obtain u v w where v: "v \<in> lang r" "s = u @ v @ w"
    by (auto simp: rx_test_iff)
  from v assms have "v \<noteq> []" "\<not> isWhiteSpace (hd v)" "\<not> isWhiteSpace (last v)"
    using nonempty_lang firstSolid_lang lastSolid_lang by blast+
  then have "\<exists>u' w'. trim (u @ v @ w) = u' @ v @ w'" by (rule trim_keeps)
  with v obtain u' w' where "trim s = u' @ v @ w'" by blast
  with v show ?thesis by (auto simp: rx_test_iff)
qed

lemma patterns_solid:
  "\<forall>r \<in> set FALLBACK_PATTERNS. nonempty r \<and> firstSolid r \<and> lastSolid r"
  by code_simp

lemma fallback_pattern_trim:
  assumes "list_ex (\<lambda>re. rx_test re s) FALLBACK_PATTERNS"
  shows "list_ex (\<lambda>re. rx_test re (trim s)) FALLBACK_PATTERNS"
proof -
  from assms obtain re where re: "re \<in> set FALLBACK_PATTERNS" "rx_test re s"
    by (auto simp: list_ex_iff)
  with patterns_solid have "rx_test re (trim s)"
    by (blast intro: rx_test_trim)
  with re show ?thesis
    by (auto simp: list_ex_iff)
qed

lemma looksLikeFallback_short:
  "js_less (len (trim text)) (MIN_LEN cfg) \<Longrightarrow> looksLikeFallback cfg text"
  by (simp add: looksLikeFallback_def Let_def)

lemma looksLikeFallback_pattern:
  "list_ex (\<lambda>re. rx_test re text) FALLBACK_PATTERNS \<Longrightarrow> looksLikeFallback cfg text"
  by (simp add: looksLikeFallback_def Let_def fallback_pattern_trim)

section \<open>The gate\<close>

text \<open>
  C1. In strict mode \<open>passesStrictGate\<close> returns false for every answer whose trimmed
  length is below \<open>MIN_LEN\<close>, and for every answer that one of the fallback patterns
  matches, whatever the sources and whatever the chosen event holds, a confidence
  included.
\<close>

theorem strict_gate_rejects_fallback:
  assumes "STRICT cfg"
    and "js_less (len (trim ans)) (MIN_LEN cfg)
         \<or> list_ex (\<lambda>re. rx_test re ans) FALLBACK_PATTERNS"
  shows "passesStrictGate E cfg ans srcs ev = Inr False"
proof -
  from assms(2) have "looksLikeFallback cfg ans"
    using looksLikeFallback_short looksLikeFallback_pattern by blast
  with assms(1) show ?thesis
    by (simp add: passesStrictGate_def)
qed

theorem strict_gate_rejects_fallback_witness:
  "STRICT defaults
   \<and> (js_less (len (trim (js ''I'' @ [0x0027]
            @ js ''m not sure, please clarify your question about staking rewards'')))
          (MIN_LEN defaults)
        \<or> list_ex (\<lambda>re. rx_test re (js ''I'' @ [0x0027]
            @ js ''m not sure, please clarify your question about staking rewards''))
          FALLBACK_PATTERNS)
   \<and> passesStrictGate asciiEngine defaults
         (js ''I'' @ [0x0027] @ js ''m not sure, please clarify your question about staking rewards'')
         (JArr [JObj [(js ''url'', JStr (js ''a''))], JObj [(js ''url'', JStr (js ''b''))],
                JObj [(js ''url'', JStr (js ''c''))]])
         (JObj [(js ''event'', JStr (js ''answer'')),
                (js ''data'', JObj [(js ''confidence'', JNum (Fin 0.9))])])
       = Inr False"
proof -
  have m: "rx_test (seqs [lit ''not'', ws1, lit ''sure''])
             (js ''I'' @ [0x0027]
                @ js ''m not sure, please clarify your question about staking rewards'')"
    by (simp add: js_def seqs_def lit_def ci_def ws1_def whiteSpace_def)
  have "seqs [lit ''not'', ws1, lit ''sure''] \<in> set FALLBACK_PATTERNS"
    by (simp add: FALLBACK_PATTERNS_def)
  with m have h: "list_ex (\<lambda>re. rx_test re (js ''I'' @ [0x0027]
            @ js ''m not sure, please clarify your question about staking rewards''))
          FALLBACK_PATTERNS"
    unfolding list_ex_iff by blast
  have s: "STRICT defaults"
    by (simp add: defaults_def)
  from s h strict_gate_rejects_fallback [OF s disjI2 [OF h]] show ?thesis
    by blast
qed

text \<open>
  C3. When \<open>STRICT\<close> is false the gate accepts: every answer, so every non-empty one,
  whatever its length and wording, the sources and the confidence.
\<close>

theorem permissive_gate_accepts:
  assumes "\<not> STRICT cfg" and "ans \<noteq> []"
  shows "passesStrictGate E cfg ans srcs ev = Inr True"
  using assms(1) by (simp add: passesStrictGate_def)

theorem permissive_gate_accepts_witness:
  "\<not> STRICT (defaults\<lparr>STRICT := False\<rparr>) \<and> js ''ok'' \<noteq> []
   \<and> passesStrictGate asciiEngine (defaults\<lparr>STRICT := False\<rparr>) (js ''ok'') (JArr []) Undefined
       = Inr True"
  using permissive_gate_accepts [of "defaults\<lparr>STRICT := False\<rparr>" "js ''ok''" asciiEngine "JArr []" Undefined]
  by (simp add: defaults_def js_def)

section \<open>The confidence check\<close>

lemma sample_not_fallback: "\<not> looksLikeFallback defaults sampleAnswer"
  by code_simp

lemma firstFinite_append:
  "firstFinite E (xs @ ys) =
     (case firstFinite E xs of
        Inl e \<Rightarrow> Inl e
      | Inr (Some n) \<Rightarrow> Inr (Some n)
      | Inr None \<Rightarrow> firstFinite E ys)"
  by (induction xs) (auto split: sum.splits)

lemma extractConfidence_candidates:
  "extractConfidence E ev =
     (case firstFinite E (candidates ev) of
        Inl e \<Rightarrow> Inl e
      | Inr (Some n) \<Rightarrow> Inr n
      | Inr None \<Rightarrow> Inr NaN)"
  by (simp add: extractConfidence_def candidates_def Let_def firstFinite_append
        split: sum.splits option.splits)

text \<open>
  C2 fails on the code at hand. The event below carries \<open>confidence: null\<close> and no
  finite number in any confidence field, its answer passes the text check and it has a
  source; the check should be skipped, as it is for the same event without the field.
  But \<open>Number(null)\<close> is 0, a finite value below every positive \<open>MIN_CONF\<close>, and the
  gate blocks the answer. The code means to look at a confidence only if present: the
  loop over the sources does skip a null \<open>score\<close>, through \<open>??\<close>, and reads the
  \<open>confidence\<close> 0.9 after it, where the loop over the payload fields stops at the null
  and never reads the \<open>score\<close> 0.9.
\<close>

theorem null_confidence_blocks:
  "claimed_confidence
       (JObj [(js ''event'', JStr (js ''answer'')),
              (js ''data'', JObj [(js ''answer'', JStr sampleAnswer),
                                  (js ''sources'', JArr [JObj [(js ''url'', JStr (js ''https://docs''))]]),
                                  (js ''confidence'', Null)])]) = None
   \<and> STRICT defaults \<and> \<not> looksLikeFallback defaults sampleAnswer
   \<and> \<not> (js_less (Fin 0) (MIN_SRC defaults)
          \<and> js_less (len (filter truthy [JObj [(js ''url'', JStr (js ''https://docs''))]]))
                (MIN_SRC defaults))
   \<and> passesStrictGate asciiEngine defaults sampleAnswer
         (JArr [JObj [(js ''url'', JStr (js ''https://docs''))]])
         (JObj [(js ''event'', JStr (js ''answer'')),
                (js ''data'', JObj [(js ''answer'', JStr sampleAnswer),
                                    (js ''sources'', JArr [JObj [(js ''url'', JStr (js ''https://docs''))]]),
                                    (js ''confidence'', Null)])]) = Inr False
   \<and> passesStrictGate asciiEngine defaults sampleAnswer
         (JArr [JObj [(js ''url'', JStr (js ''https://docs''))]])
         (JObj [(js ''event'', JStr (js ''answer'')),
                (js ''data'', JObj [(js ''answer'', JStr sampleAnswer),
                                    (js ''sources'', JArr [JObj [(js ''url'', JStr (js ''https://docs''))]])])])
       = Inr True
   \<and> extractConfidence asciiEngine
         (JObj [(js ''data'', JObj [(js ''sources'',
                   JArr [JObj [(js ''score'', Null), (js ''confidence'', JNum (Fin 0.9))]])])])
       = Inr (Fin 0.9)
   \<and> extractConfidence asciiEngine
         (JObj [(js ''data'', JObj [(js ''confidence'', Null), (js ''score'', JNum (Fin 0.9))])])
       = Inr (Fin 0)"
proof -
  let ?src = "JObj [(js ''url'', JStr (js ''https://docs''))]"
  let ?ev = "JObj [(js ''event'', JStr (js ''answer'')),
              (js ''data'', JObj [(js ''answer'', JStr sampleAnswer),
                                  (js ''sources'', JArr [?src]),
                                  (js ''confidence'', Null)])]"
  let ?ev' = "JObj [(js ''event'', JStr (js ''answer'')),
              (js ''data'', JObj [(js ''answer'', JStr sampleAnswer),
                                  (js ''sources'', JArr [?src])])]"
  have "claimed_candidates ?ev
          = [Null, Undefined, Undefined, Undefined, Undefined, Undefined, Undefined, Undefined]"
    by (simp add: claimed_candidates_def payloadFields_def js_def)
  then have a: "claimed_confidence ?ev = None"
    by (simp add: claimed_confidence_def)
  have b: "extractConfidence asciiEngine ?ev = Inr (Fin 0)"
    by (simp add: extractConfidence_def payloadFields_def either_def js_def)
  have b': "extractConfidence asciiEngine ?ev' = Inr NaN"
    by (simp add: extractConfidence_def payloadFields_def sourceScore_def coalesce_def
          either_def js_def)
  have cfg: "STRICT defaults" "MIN_SRC defaults = Fin 1" "MIN_CONF defaults = Fin 0.35"
    by (simp_all add: defaults_def)
  have c: "passesStrictGate asciiEngine defaults sampleAnswer (JArr [?src]) ?ev = Inr False"
    by (simp add: passesStrictGate_def sample_not_fallback b cfg len_def)
  have c': "passesStrictGate asciiEngine defaults sampleAnswer (JArr [?src]) ?ev' = Inr True"
    by (simp add: passesStrictGate_def sample_not_fallback b' cfg len_def)
  have d: "\<not> (js_less (Fin 0) (MIN_SRC defaults)
               \<and> js_less (len (filter truthy [?src])) (MIN_SRC defaults))"
    by (simp add: cfg len_def)
  have e: "extractConfidence asciiEngine
         (JObj [(js ''data'', JObj [(js ''sources'',
                   JArr [JObj [(js ''score'', Null), (js ''confidence'', JNum (Fin 0.9))]])])])
       = Inr (Fin 0.9)"
    by (simp add: extractConfidence_def payloadFields_def sourceScore_def coalesce_def
          either_def js_def)
  have f: "extractConfidence asciiEngine
         (JObj [(js ''data'', JObj [(js ''confidence'', Null), (js ''score'', JNum (Fin 0.9))])])
       = Inr (Fin 0)"
    by (simp add: extractConfidence_def payloadFields_def either_def js_def)
  from a c c' d e f cfg(1) sample_not_fallback show ?thesis
    by blast
qed

section \<open>The answering client\<close>

lemma tagged_truthy: "tagged t e \<Longrightarrow> truthy e"
  by (cases e) (auto simp: tagged_def)

lemma find_tagged_truthy: "List.find (tagged t) events = Some e \<Longrightarrow> truthy e"
  by (auto simp: find_Some_iff intro: tagged_truthy)

lemma chooseEvent_spec:
  "chooseEvent events = (case spec_chosen events of Some e \<Rightarrow> e | None \<Rightarrow> Undefined)"
proof (cases "List.find (tagged (js ''lookup_answer'')) events")
  case (Some e)
  then have "truthy e" by (rule find_tagged_truthy)
  with Some show ?thesis
    by (simp add: chooseEvent_def spec_chosen_def either_def)
next
  case None
  show ?thesis
  proof (cases "List.find (tagged (js ''answer'')) events")
    case (Some e)
    then have "truthy e" by (rule find_tagged_truthy)
    with Some None show ?thesis
      by (simp add: chooseEvent_def spec_chosen_def either_def)
  next
    case none: None
    with None show ?thesis
      by (simp add: chooseEvent_def spec_chosen_def either_def split: list.splits)
  qed
qed

lemma spec_chosen_None: "(spec_chosen events = None) = (events = [])"
  by (auto simp: spec_chosen_def find_None_iff split: option.splits list.splits)

lemma askDocsBot_try_failure:
  "hardFailure E res \<Longrightarrow> \<exists>e. snd (askDocsBot_try E cfg res) = Inl e"
  by (auto simp: hardFailure_def askDocsBot_try_def split: http.splits sum.splits if_splits)

text \<open>
  C5. Whenever the request fails (\<open>fetch\<close> rejects on a network error or on the abort
  of the timeout, the status is no success, the body cannot be read or does not parse)
  the \<open>try\<close> block of \<open>askDocsBot\<close> throws, the \<open>catch\<close> logs the error, and the
  caller gets the no-confident-answer result: \<open>ok\<close> false, an empty answer, no sources.
\<close>

theorem askDocsBot_failure:
  assumes "hardFailure E res"
  shows "(\<exists>e. snd (askDocsBot_try E cfg res) = Inl e)
         \<and> fst (askDocsBot E cfg en res convoByUser question userId)
             = \<lparr> ok = False, answer = [], sources = [], chosen = Undefined \<rparr>
         \<and> Console Err ''[DocsBot] Error:''
             \<in> set (fst (snd (askDocsBot E cfg en res convoByUser question userId)))"
proof -
  from assms obtain e where "snd (askDocsBot_try E cfg res) = Inl e"
    using askDocsBot_try_failure by blast
  then show ?thesis
    by (auto simp: askDocsBot_def Let_def split: prod.splits)
qed


theorem askDocsBot_failure_witness:
  "hardFailure asciiEngine (Rejected FetchFailed)
   \<and> hardFailure asciiEngine (Rejected Aborted)
   \<and> hardFailure asciiEngine (Response 503 (Inr (js ''busy'')))
   \<and> hardFailure asciiEngine (Response 200 (Inr (js ''<html>'')))
   \<and> fst (askDocsBot asciiEngine defaults
             \<lparr> randomUUID = Some (js ''id-1''), now = js ''0'', random = js ''0.5'' \<rparr>
             (Response 200 (Inr (js ''<html>''))) Map.empty (js ''what is iaero?'') (js ''u1''))
       = \<lparr> ok = False, answer = [], sources = [], chosen = Undefined \<rparr>"
proof -
  have h: "hardFailure asciiEngine (Response 200 (Inr (js ''<html>'')))"
    by (simp add: hardFailure_def asciiEngine_def js_def)
  have "hardFailure asciiEngine (Rejected FetchFailed)"
    "hardFailure asciiEngine (Rejected Aborted)"
    "hardFailure asciiEngine (Response 503 (Inr (js ''busy'')))"
    by (simp_all add: hardFailure_def)
  with h askDocsBot_failure [OF h] show ?thesis
    by blast
qed

text \<open>
  C6, as the code has it. When the status is a success and the body is empty or the
  text \<open>null\<close>, the \<open>try\<close> block returns the no-confident-answer result without a
  throw. The caller gets the very result a hard failure gives; the two differ on the
  console only, a warning here and an error there.
\<close>

theorem null_body_no_answer:
  assumes "200 \<le> status \<and> status \<le> 299" and "body = [] \<or> body = js ''null''"
  shows "snd (askDocsBot_try E cfg (Response status (Inr body)))
           = Inr \<lparr> ok = False, answer = [], sources = [], chosen = Undefined \<rparr>
         \<and> fst (askDocsBot E cfg en (Response status (Inr body)) convoByUser question userId)
             = \<lparr> ok = False, answer = [], sources = [], chosen = Undefined \<rparr>
         \<and> Console Warn ''[DocsBot] Received null response''
             \<in> set (fst (snd (askDocsBot E cfg en (Response status (Inr body)) convoByUser
                                question userId)))
         \<and> Console Err ''[DocsBot] Error:''
             \<notin> set (fst (snd (askDocsBot E cfg en (Response status (Inr body)) convoByUser
                                question userId)))"
proof -
  from assms have "askDocsBot_try E cfg (Response status (Inr body))
      = ([Console Info ''[DocsBot] Response status:'',
          Console Warn ''[DocsBot] Received null response''],
         Inr \<lparr> ok = False, answer = [], sources = [], chosen = Undefined \<rparr>)"
    by (auto simp: askDocsBot_try_def)
  then show ?thesis
    by (simp add: askDocsBot_def Let_def split: prod.splits)
qed

theorem null_body_no_answer_witness:
  "(200 \<le> (200::nat) \<and> (200::nat) \<le> 299) \<and> (js ''null'' = [] \<or> js ''null'' = js ''null'')
   \<and> fst (askDocsBot asciiEngine defaults
             \<lparr> randomUUID = Some (js ''id-1''), now = js ''0'', random = js ''0.5'' \<rparr>
             (Response 200 (Inr (js ''null''))) Map.empty (js ''what is iaero?'') (js ''u1''))
       = \<lparr> ok = False, answer = [], sources = [], chosen = Undefined \<rparr>"
  using null_body_no_answer [of 200 "js ''null''" asciiEngine defaults
      "\<lparr> randomUUID = Some (js ''id-1''), now = js ''0'', random = js ''0.5'' \<rparr>"
      Map.empty "js ''what is iaero?''" "js ''u1''"]
  by simp

text \<open>
  C6 as stated fails: what \<open>askDocsBot\<close> returns for the body \<open>null\<close> is what it
  returns when \<open>fetch\<close> rejects, so the caller has no signal to tell them apart.
\<close>

theorem null_body_same_as_failure_counterexample:
  "fst (askDocsBot asciiEngine defaults
          \<lparr> randomUUID = Some (js ''id-1''), now = js ''0'', random = js ''0.5'' \<rparr>
          (Response 200 (Inr (js ''null''))) Map.empty (js ''what is iaero?'') (js ''u1''))
   = fst (askDocsBot asciiEngine defaults
          \<lparr> randomUUID = Some (js ''id-1''), now = js ''0'', random = js ''0.5'' \<rparr>
          (Rejected FetchFailed) Map.empty (js ''what is iaero?'') (js ''u1''))"
  by (simp add: askDocsBot_def askDocsBot_try_def Let_def split: prod.splits)

lemma answerOf_string:
  "field (field c (js ''data'')) (js ''answer'') = JStr s \<Longrightarrow> answerOf c = Inr (trim s)"
  by (simp add: answerOf_def)

lemma answerOf_absent:
  "nullish (field (field c (js ''data'')) (js ''answer'')) \<Longrightarrow> answerOf c = Inr []"
  by (cases "field (field c (js ''data'')) (js ''answer'')") (simp_all add: answerOf_def)

lemma sourcesOf_default:
  "sourcesOf c = (case field (field c (js ''data'')) (js ''sources'') of JArr xs \<Rightarrow> xs | _ \<Rightarrow> [])"
  by (simp add: sourcesOf_def)

lemma empty_events: "chooseEvent [] = Undefined \<and> answerOf Undefined = Inr [] \<and> sourcesOf Undefined = []"
  by (simp add: chooseEvent_def either_def answerOf_def sourcesOf_def)

lemma askDocsBot_try_events:
  assumes "200 \<le> status \<and> status \<le> 299" and "body \<noteq> []" and "body \<noteq> js ''null''"
    and "JSON_parse E body = Inr (JArr events)"
    and "answerOf (chooseEvent events) = Inr a"
    and "passesStrictGate E cfg a (JArr (sourcesOf (chooseEvent events))) (chooseEvent events) = Inr g"
  shows "snd (askDocsBot_try E cfg (Response status (Inr body)))
           = Inr \<lparr> ok = g, answer = a, sources = sourcesOf (chooseEvent events),
                   chosen = chooseEvent events \<rparr>"
  using assms by (simp add: askDocsBot_try_def Let_def)

text \<open>
  C7. From a parsed array the chosen event is the first tagged \<open>lookup_answer\<close>, else
  the first tagged \<open>answer\<close>, else the first element, and undefined when the array is
  empty. The answer is the trimmed \<open>data.answer\<close> when that is a string and the empty
  string when it is missing; the sources are \<open>data.sources\<close> when that is an array and
  empty otherwise; for the empty array both are empty. This is what \<open>askDocsBot\<close>
  returns, with the verdict of the gate.
\<close>

theorem event_selection:
  "chooseEvent events = (case spec_chosen events of Some e \<Rightarrow> e | None \<Rightarrow> Undefined)
   \<and> (spec_chosen events = None) = (events = [])
   \<and> (events = [] \<longrightarrow> chooseEvent events = Undefined
         \<and> answerOf (chooseEvent events) = Inr [] \<and> sourcesOf (chooseEvent events) = [])
   \<and> (\<forall>s. field (field c (js ''data'')) (js ''answer'') = JStr s \<longrightarrow> answerOf c = Inr (trim s))
   \<and> (nullish (field (field c (js ''data'')) (js ''answer'')) \<longrightarrow> answerOf c = Inr [])
   \<and> sourcesOf c = (case field (field c (js ''data'')) (js ''sources'') of
                      JArr xs \<Rightarrow> xs | _ \<Rightarrow> [])
   \<and> (200 \<le> status \<and> status \<le> 299 \<and> body \<noteq> [] \<and> body \<noteq> js ''null''
        \<and> JSON_parse E body = Inr (JArr events)
        \<and> answerOf (chooseEvent events) = Inr a
        \<and> passesStrictGate E cfg a (JArr (sourcesOf (chooseEvent events))) (chooseEvent events)
            = Inr g
      \<longrightarrow> snd (askDocsBot_try E cfg (Response status (Inr body)))
            = Inr \<lparr> ok = g, answer = a, sources = sourcesOf (chooseEvent events),
                    chosen = chooseEvent events \<rparr>)"
  using chooseEvent_spec [of events] spec_chosen_None [of events] empty_events
    answerOf_string [of c] answerOf_absent [of c] sourcesOf_default [of c]
    askDocsBot_try_events [of status body E events a cfg g]
  by auto


theorem event_selection_witness:
  "chooseEvent
     [JObj [(js ''event'', JStr (js ''progress''))],
      JObj [(js ''event'', JStr (js ''answer'')),
            (js ''data'', JObj [(js ''answer'', JStr (js '' hi ''))])],
      JObj [(js ''event'', JStr (js ''lookup_answer'')),
            (js ''data'', JObj [(js ''answer'', JStr (js ''  The vault pays. '')),
                                (js ''sources'', JArr [JObj [(js ''url'', JStr (js ''u''))]])])]]
   = JObj [(js ''event'', JStr (js ''lookup_answer'')),
           (js ''data'', JObj [(js ''answer'', JStr (js ''  The vault pays. '')),
                               (js ''sources'', JArr [JObj [(js ''url'', JStr (js ''u''))]])])]
   \<and> answerOf
       (JObj [(js ''event'', JStr (js ''lookup_answer'')),
              (js ''data'', JObj [(js ''answer'', JStr (js ''  The vault pays. '')),
                                  (js ''sources'', JArr [JObj [(js ''url'', JStr (js ''u''))]])])])
     = Inr (js ''The vault pays.'')
   \<and> sourcesOf
       (JObj [(js ''event'', JStr (js ''lookup_answer'')),
              (js ''data'', JObj [(js ''answer'', JStr (js ''  The vault pays. '')),
                                  (js ''sources'', JArr [JObj [(js ''url'', JStr (js ''u''))]])])])
     = [JObj [(js ''url'', JStr (js ''u''))]]"
  using event_selection
    [of "[JObj [(js ''event'', JStr (js ''progress''))],
          JObj [(js ''event'', JStr (js ''answer'')),
                (js ''data'', JObj [(js ''answer'', JStr (js '' hi ''))])],
          JObj [(js ''event'', JStr (js ''lookup_answer'')),
                (js ''data'', JObj [(js ''answer'', JStr (js ''  The vault pays. '')),
                                    (js ''sources'', JArr [JObj [(js ''url'', JStr (js ''u''))]])])]]"
        "JObj [(js ''event'', JStr (js ''lookup_answer'')),
               (js ''data'', JObj [(js ''answer'', JStr (js ''  The vault pays. '')),
                                   (js ''sources'', JArr [JObj [(js ''url'', JStr (js ''u''))]])])]"]
  by (simp add: spec_chosen_def tagged_def js_def trim_def trimStart_def trimEnd_def
        isWhiteSpace_def whiteSpace_def)

section \<open>Conversation ids and the reset\<close>

lemma newId_nonempty: "newId en \<noteq> []"
  by (simp add: newId_def js_def split: option.splits)

lemma getConversationIdForUser_new:
  "convoByUser userId = None \<Longrightarrow>
     getConversationIdForUser en convoByUser userId = (newId en, convoByUser(userId \<mapsto> newId en))"
  by (simp add: getConversationIdForUser_def)

lemma getConversationIdForUser_stored:
  "convoByUser userId = Some i \<Longrightarrow> i \<noteq> [] \<Longrightarrow>
     getConversationIdForUser en convoByUser userId = (i, convoByUser)"
  by (simp add: getConversationIdForUser_def)

lemma new_topic:
  assumes "\<not> author_bot msg" and "toLowerCase E (trim (content msg)) = js ''new topic''"
  shows "onMessageCreate E cfg autoChannels en res convoByUser msg
           = (convoByUser(author_id msg := None), [Reply resetNotice])"
  using assms by (simp add: onMessageCreate_def)

text \<open>
  C10. A message of a user (not of a bot) whose trimmed, lower-cased content is
  \<open>new topic\<close> is handled before the mention and the channel are looked at: in any
  channel, mentioned or not, the handler removes the author's entry from the map, leaves
  every other entry as it is, replies with the confirmation, and sends no request to the
  answering service.
\<close>

theorem new_topic_reset:
  assumes "\<not> author_bot msg" and "toLowerCase E (trim (content msg)) = js ''new topic''"
  shows "onMessageCreate E cfg autoChannels en res convoByUser msg
           = (convoByUser(author_id msg := None), [Reply resetNotice])
         \<and> fst (onMessageCreate E cfg autoChannels en res convoByUser msg) (author_id msg) = None
         \<and> (\<forall>u. u \<noteq> author_id msg \<longrightarrow>
               fst (onMessageCreate E cfg autoChannels en res convoByUser msg) u = convoByUser u)
         \<and> Reply resetNotice \<in> set (snd (onMessageCreate E cfg autoChannels en res convoByUser msg))
         \<and> (\<forall>cid q. Request cid q
               \<notin> set (snd (onMessageCreate E cfg autoChannels en res convoByUser msg)))"
proof -
  have handled: "onMessageCreate E cfg autoChannels en res convoByUser msg
      = (convoByUser(author_id msg := None), [Reply resetNotice])"
    using assms by (rule new_topic)
  have "(convoByUser(author_id msg := None)) u = convoByUser u" if "u \<noteq> author_id msg" for u
    using that by simp
  then show ?thesis
    unfolding handled by simp
qed

lemma newId_uuid: "randomUUID en = Some x \<Longrightarrow> x \<noteq> [] \<Longrightarrow> newId en = x"
  by (simp add: newId_def)

lemma newId_fallback:
  "randomUUID en = None \<or> randomUUID en = Some [] \<Longrightarrow> newId en = now en @ js ''-'' @ random en"
  by (auto simp: newId_def)

text \<open>
  C9. For a user without a stored id, \<open>getConversationIdForUser\<close> returns a newly
  generated id and stores it: the id is what \<open>crypto.randomUUID()\<close> returns at that
  call when that is a non-empty string, and otherwise the text of \<open>Date.now()\<close>, a dash
  and the text of \<open>Math.random()\<close>; it is never empty. A second call returns the same
  id and changes nothing, whatever the platform would return then. After the reset of
  \<open>new topic\<close> has removed the entry, the next call generates an id again, from what
  the platform returns at that call, and a different UUID gives a different id.
\<close>

theorem conversation_ids:
  assumes "convoByUser userId = None"
    and "\<not> author_bot msg" and "toLowerCase E (trim (content msg)) = js ''new topic''"
    and "author_id msg = userId"
  shows "let i = fst (getConversationIdForUser en1 convoByUser userId);
             c1 = snd (getConversationIdForUser en1 convoByUser userId);
             c3 = fst (onMessageCreate E cfg autoChannels en3 res c1 msg);
             j = fst (getConversationIdForUser en4 c3 userId);
             c4 = snd (getConversationIdForUser en4 c3 userId)
         in i \<noteq> [] \<and> c1 = convoByUser(userId \<mapsto> i)
            \<and> (\<forall>x. randomUUID en1 = Some x \<and> x \<noteq> [] \<longrightarrow> i = x)
            \<and> (randomUUID en1 = None \<or> randomUUID en1 = Some []
                 \<longrightarrow> i = now en1 @ js ''-'' @ random en1)
            \<and> getConversationIdForUser en2 c1 userId = (i, c1)
            \<and> c3 userId = None
            \<and> j \<noteq> [] \<and> c4 = c3(userId \<mapsto> j)
            \<and> (\<forall>y. randomUUID en4 = Some y \<and> y \<noteq> [] \<longrightarrow> j = y)
            \<and> (randomUUID en4 = None \<or> randomUUID en4 = Some []
                 \<longrightarrow> j = now en4 @ js ''-'' @ random en4)
            \<and> (\<forall>x y. randomUUID en1 = Some x \<and> x \<noteq> [] \<and> randomUUID en4 = Some y \<and> y \<noteq> []
                        \<and> x \<noteq> y \<longrightarrow> j \<noteq> i)"
proof -
  have first: "getConversationIdForUser en1 convoByUser userId
      = (newId en1, convoByUser(userId \<mapsto> newId en1))"
    using assms(1) by (rule getConversationIdForUser_new)
  have second: "getConversationIdForUser en2 (convoByUser(userId \<mapsto> newId en1)) userId
      = (newId en1, convoByUser(userId \<mapsto> newId en1))"
    using newId_nonempty [of en1] by (simp add: getConversationIdForUser_stored)
  have reset: "onMessageCreate E cfg autoChannels en3 res (convoByUser(userId \<mapsto> newId en1)) msg
      = ((convoByUser(userId \<mapsto> newId en1))(userId := None), [Reply resetNotice])"
    using new_topic [OF assms(2,3)] assms(4) by simp
  have third: "getConversationIdForUser en4 ((convoByUser(userId \<mapsto> newId en1))(userId := None)) userId
      = (newId en4, ((convoByUser(userId \<mapsto> newId en1))(userId := None))(userId \<mapsto> newId en4))"
    by (rule getConversationIdForUser_new) simp
  have uuid: "newId en = x" if "randomUUID en = Some x \<and> x \<noteq> []" for en x
    using that by (simp add: newId_uuid)
  have fresh: "newId en4 \<noteq> newId en1"
    if "randomUUID en1 = Some x \<and> x \<noteq> [] \<and> randomUUID en4 = Some y \<and> y \<noteq> [] \<and> x \<noteq> y" for x y
    using that by (auto simp: newId_uuid)
  show ?thesis
    unfolding Let_def first second reset third fst_conv snd_conv
    using newId_nonempty [of en1] newId_nonempty [of en4] uuid fresh
      newId_fallback [of en1] newId_fallback [of en4]
    by (intro conjI allI impI) simp_all
qed

lemma lower_new_topic: "toLowerCase asciiEngine (trim (js ''  New Topic '')) = js ''new topic''"
  by (simp add: asciiEngine_def asciiLower_def js_def trim_def trimStart_def trimEnd_def
        isWhiteSpace_def whiteSpace_def)

theorem new_topic_reset_witness:
  "\<not> author_bot \<lparr> author_bot = False, author_id = js ''u1'', content = js ''  New Topic '',
                   channelId = js ''general'', mentionsBot = False \<rparr>
   \<and> toLowerCase asciiEngine
         (trim (content \<lparr> author_bot = False, author_id = js ''u1'', content = js ''  New Topic '',
                          channelId = js ''general'', mentionsBot = False \<rparr>)) = js ''new topic''
   \<and> onMessageCreate asciiEngine defaults {js ''help''}
         \<lparr> randomUUID = Some (js ''id-3''), now = js ''0'', random = js ''0.5'' \<rparr>
         (Rejected FetchFailed)
         [js ''u1'' \<mapsto> js ''id-1'', js ''u2'' \<mapsto> js ''id-2'']
         \<lparr> author_bot = False, author_id = js ''u1'', content = js ''  New Topic '',
           channelId = js ''general'', mentionsBot = False \<rparr>
       = ([js ''u1'' \<mapsto> js ''id-1'', js ''u2'' \<mapsto> js ''id-2''](js ''u1'' := None),
          [Reply resetNotice])"
proof -
  let ?msg = "\<lparr> author_bot = False, author_id = js ''u1'', content = js ''  New Topic '',
                 channelId = js ''general'', mentionsBot = False \<rparr>"
  have a: "\<not> author_bot ?msg" by simp
  have b: "toLowerCase asciiEngine (trim (content ?msg)) = js ''new topic''"
    by (simp add: lower_new_topic)
  from new_topic_reset [OF a b] a b show ?thesis
    by simp
qed

theorem conversation_ids_witness:
  "(Map.empty :: convo) (js ''u1'') = None
   \<and> getConversationIdForUser
         \<lparr> randomUUID = Some (js ''id-1''), now = js ''0'', random = js ''0.5'' \<rparr>
         Map.empty (js ''u1'')
       = (js ''id-1'', [js ''u1'' \<mapsto> js ''id-1''])
   \<and> getConversationIdForUser
         \<lparr> randomUUID = Some (js ''id-2''), now = js ''1'', random = js ''0.7'' \<rparr>
         [js ''u1'' \<mapsto> js ''id-1''] (js ''u1'')
       = (js ''id-1'', [js ''u1'' \<mapsto> js ''id-1''])
   \<and> fst (getConversationIdForUser
         \<lparr> randomUUID = None, now = js ''17'', random = js ''0.25'' \<rparr>
         (fst (onMessageCreate asciiEngine defaults {}
                 \<lparr> randomUUID = None, now = js ''2'', random = js ''0.1'' \<rparr>
                 (Rejected FetchFailed) [js ''u1'' \<mapsto> js ''id-1'']
                 \<lparr> author_bot = False, author_id = js ''u1'', content = js ''  New Topic '',
                   channelId = js ''general'', mentionsBot = False \<rparr>))
         (js ''u1''))
       = js ''17'' @ js ''-'' @ js ''0.25''"
proof -
  let ?msg = "\<lparr> author_bot = False, author_id = js ''u1'', content = js ''  New Topic '',
                 channelId = js ''general'', mentionsBot = False \<rparr>"
  let ?en1 = "\<lparr> randomUUID = Some (js ''id-1''), now = js ''0'', random = js ''0.5'' \<rparr>"
  let ?en2 = "\<lparr> randomUUID = Some (js ''id-2''), now = js ''1'', random = js ''0.7'' \<rparr>"
  let ?en3 = "\<lparr> randomUUID = None, now = js ''2'', random = js ''0.1'' \<rparr>"
  let ?en4 = "\<lparr> randomUUID = None, now = js ''17'', random = js ''0.25'' \<rparr>"
  have a: "(Map.empty :: convo) (js ''u1'') = None" by simp
  have b: "\<not> author_bot ?msg" by simp
  have c: "toLowerCase asciiEngine (trim (content ?msg)) = js ''new topic''"
    by (simp add: lower_new_topic)
  have d: "author_id ?msg = js ''u1''" by simp
  show ?thesis
    using a conversation_ids [of Map.empty "js ''u1''" ?msg asciiEngine ?en1 defaults "{}" ?en3
      "Rejected FetchFailed" ?en4 ?en2, OF a b c d]
    unfolding Let_def by (clarsimp simp: js_def prod_eq_iff)
qed

section \<open>The test on ambient messages\<close>

lemma lower_does: "toLowerCase asciiEngine (trim (js ''Does it work'')) = js ''does it work''"
  by (simp add: asciiEngine_def asciiLower_def js_def trim_def trimStart_def trimEnd_def
        isWhiteSpace_def whiteSpace_def)

lemma does_not_likely: "\<not> isLikelyQuestion (js ''does it work'')"
  by (simp add: isLikelyQuestion_def skipWords_def questionIndicators_def domainKeywords_def
        startsWith_def js_def)

text \<open>
  C4 fails on the code at hand: the list of interrogatives holds \<open>does,\<close> with a comma
  where the earlier revisions of the handler, and the specification, have \<open>does\<close>. The
  message \<open>Does it work\<close> in an auto-answer channel passes the three filters and starts
  with \<open>does\<close> and a space, and the handler ignores it: no request, no reply.
\<close>

theorem does_question_ignored:
  "startsWith (toLowerCase asciiEngine (trim (js ''Does it work''))) (js ''does '')
   \<and> \<not> isLikelyQuestion (toLowerCase asciiEngine (trim (js ''Does it work'')))
   \<and> onMessageCreate asciiEngine defaults {js ''help''}
         \<lparr> randomUUID = Some (js ''id-1''), now = js ''0'', random = js ''0.5'' \<rparr>
         (Response 200 (Inr (js ''[]''))) Map.empty
         \<lparr> author_bot = False, author_id = js ''u1'', content = js ''Does it work'',
           channelId = js ''help'', mentionsBot = False \<rparr>
       = (Map.empty, [])"
proof -
  have "js ''Does it work'' \<noteq> js ''new topic''" "js ''does it work'' \<noteq> js ''new topic''"
    by (simp_all add: js_def)
  moreover have "startsWith (js ''does it work'') (js ''does '')"
    by (simp add: startsWith_def js_def)
  ultimately show ?thesis
    by (simp add: onMessageCreate_def lower_does does_not_likely)
qed


lemma classifier_examples:
  "\<not> isLikelyQuestion (js ''gm'')"
  "\<not> isLikelyQuestion (js ''ok thanks'')"
  "\<not> isLikelyQuestion (js ''hi'')"
  "isLikelyQuestion (js ''what is the staking apy?'')"
  "isLikelyQuestion (js ''iaero vault rules'')"
  by (simp_all add: isLikelyQuestion_def skipWords_def questionIndicators_def domainKeywords_def
        startsWith_def js_def)

section \<open>Limits of the platform\<close>

lemma collect_length: "collect xs = Inr ys \<Longrightarrow> length ys = length xs"
  by (induction xs arbitrary: ys) (auto split: sum.splits)

lemma sourceLines_length: "sourceLines E srcs = Inr ls \<Longrightarrow> length ls \<le> 5"
  by (auto simp: sourceLines_def dest: collect_length)

lemma buildEmbed_limits:
  assumes "buildEmbed E ans srcs = Inr emb"
  shows "1 \<le> length (description emb) \<and> length (description emb) \<le> 4000
         \<and> (\<forall>sl. sourcesField emb = Some sl \<longrightarrow>
               length sl \<le> 1024
               \<and> (\<exists>ls. sourceLines E srcs = Inr ls \<and> length ls \<le> 5
                        \<and> sl = take 1024 (join [0x000A] ls)))"
proof (cases "sourceLines E srcs")
  case (Inl e)
  with assms show ?thesis
    by (auto simp: buildEmbed_def Suc_le_eq split: if_splits)
next
  case (Inr ls)
  with assms sourceLines_length [OF Inr] show ?thesis
    by (auto simp: buildEmbed_def Let_def Suc_le_eq split: if_splits)
qed

lemma buildEmbed_empty: "buildEmbed E [] srcs = Inl ValidationError"
  by (simp add: buildEmbed_def)

lemma buildResponse_limit:
  assumes "buildResponse E authorId question ans srcs = Inr r"
  shows "length r \<le> 2000"
  using assms by (auto simp: buildResponse_def js_def split: sum.splits if_splits)

lemma collect_map_Inr:
  "\<forall>x \<in> set xs. \<exists>y. f x = Inr y \<and> P y \<Longrightarrow> \<exists>ys. collect (map f xs) = Inr ys \<and> list_all P ys"
  by (induction xs) (auto split: sum.splits)

lemma sourceLine_plain: "plainSource s \<Longrightarrow> \<exists>l. sourceLine E s = Inr l"
proof (cases s)
  case (JObj kvs)
  assume "plainSource s"
  with JObj have t: "textOrAbsent (field s (js ''title''))" and u: "textOrAbsent (field s (js ''url''))"
    by simp_all
  from t have "\<exists>x. ToString E (either (field s (js ''title'')) (JStr (js ''Source''))) = Inr x"
    by (cases "field s (js ''title'')") (simp_all add: either_def)
  moreover from u have "\<exists>x. ToString E (either (field s (js ''url'')) (JStr (js ''#''))) = Inr x"
    by (cases "field s (js ''url'')") (simp_all add: either_def)
  ultimately show ?thesis
    using JObj by (auto simp: sourceLine_def fieldOf_def)
qed simp_all

lemma sourceLink_plain: "plainSource s \<Longrightarrow> \<exists>v. sourceLink E s = Inr v \<and> textOrAbsent v"
  by (cases s) (auto simp: sourceLink_def fieldOf_def)

lemma ToString_text: "textOrAbsent v \<Longrightarrow> \<exists>t. ToString E v = Inr t"
  by (cases v) simp_all

lemma buildEmbed_plain:
  assumes "list_all plainSource srcs" and "ans \<noteq> []"
  shows "\<exists>emb. buildEmbed E ans srcs = Inr emb"
proof -
  from assms have "\<forall>s \<in> set (take 5 srcs). \<exists>l. sourceLine E s = Inr l \<and> True"
    using sourceLine_plain by (auto simp: list_all_iff dest: in_set_takeD)
  then obtain ls where "sourceLines E srcs = Inr ls"
    unfolding sourceLines_def using collect_map_Inr [of "take 5 srcs" "sourceLine E" "\<lambda>_. True"]
    by blast
  with assms(2) show ?thesis
    by (simp add: buildEmbed_def Let_def)
qed

lemma buildResponse_plain:
  assumes "list_all plainSource srcs"
  shows "\<exists>r. buildResponse E authorId question ans srcs = Inr r"
proof -
  from assms have "\<forall>s \<in> set srcs. \<exists>v. sourceLink E s = Inr v \<and> textOrAbsent v"
    by (auto simp: list_all_iff dest: sourceLink_plain)
  then obtain links where links: "collect (map (sourceLink E) srcs) = Inr links"
    "list_all textOrAbsent links"
    using collect_map_Inr [of srcs "sourceLink E" textOrAbsent] by blast
  then have "\<forall>v \<in> set (filter truthy links). \<exists>t. ToString E v = Inr t \<and> True"
    using ToString_text by (auto simp: list_all_iff)
  then obtain parts where "collect (map (ToString E) (filter truthy links)) = Inr parts"
    using collect_map_Inr [of "filter truthy links" "ToString E" "\<lambda>_. True"] by blast
  with links have "\<exists>r. composeResponse E authorId question ans srcs = Inr r"
    by (simp add: composeResponse_def Let_def)
  then show ?thesis
    by (auto simp: buildResponse_def)
qed

text \<open>
  C8. Whatever the answer and the sources, an embed that is built has a description of
  at most 4000 code units (and at least one) and a source block of at most 1024, made
  of the lines of at most five sources; a channel reply that is built has at most 2000
  code units. Both are built whenever the sources are objects with textual titles and
  links and, for the embed, the answer is not empty; for the empty answer the builder
  throws and there is no embed.
\<close>

theorem format_limits:
  "(\<forall>emb. buildEmbed E ans srcs = Inr emb \<longrightarrow>
      1 \<le> length (description emb) \<and> length (description emb) \<le> 4000
      \<and> (\<forall>sl. sourcesField emb = Some sl \<longrightarrow>
            length sl \<le> 1024
            \<and> (\<exists>ls. sourceLines E srcs = Inr ls \<and> length ls \<le> 5
                     \<and> sl = take 1024 (join [0x000A] ls))))
   \<and> (\<forall>r. buildResponse E authorId question ans srcs = Inr r \<longrightarrow> length r \<le> 2000)
   \<and> (list_all plainSource srcs \<longrightarrow>
        (ans \<noteq> [] \<longrightarrow> (\<exists>emb. buildEmbed E ans srcs = Inr emb))
        \<and> (\<exists>r. buildResponse E authorId question ans srcs = Inr r))
   \<and> buildEmbed E [] srcs = Inl ValidationError"
  using buildEmbed_limits [of E ans srcs] buildResponse_limit [of E authorId question ans srcs]
    buildEmbed_plain [of srcs ans E] buildResponse_plain [of srcs E authorId question ans]
    buildEmbed_empty [of E srcs]
  by blast

theorem format_limits_witness:
  "list_all plainSource
     [JObj [(js ''title'', JStr (js ''Docs'')), (js ''url'', JStr (js ''https://d''))],
      JObj [], JObj [], JObj [], JObj [], JObj []]
   \<and> buildEmbed asciiEngine (js ''Stake AERO in the vault.'')
       [JObj [(js ''title'', JStr (js ''Docs'')), (js ''url'', JStr (js ''https://d''))],
        JObj [], JObj [], JObj [], JObj [], JObj []]
     = Inr \<lparr> description = js ''Stake AERO in the vault.'',
             sourcesField = Some (join [0x000A]
               [[0x2022] @ js '' [Docs](https://d)'', [0x2022] @ js '' [Source](#)'',
                [0x2022] @ js '' [Source](#)'', [0x2022] @ js '' [Source](#)'',
                [0x2022] @ js '' [Source](#)'']) \<rparr>
   \<and> buildResponse asciiEngine (js ''u1'') (js ''how?'') (js ''Stake AERO in the vault.'')
       [JObj [(js ''title'', JStr (js ''Docs'')), (js ''url'', JStr (js ''https://d''))],
        JObj [], JObj [], JObj [], JObj [], JObj []]
     = Inr (js ''<@u1>'' @ [0x000A, 0x000A] @ js ''**how?**'' @ [0x000A, 0x000A]
            @ js ''Stake AERO in the vault.'' @ sourcesHeading @ js ''https://d'')
   \<and> length (js ''<@u1>'' @ [0x000A, 0x000A] @ js ''**how?**'' @ [0x000A, 0x000A]
            @ js ''Stake AERO in the vault.'' @ sourcesHeading @ js ''https://d'') \<le> 2000"
proof -
  let ?srcs = "[JObj [(js ''title'', JStr (js ''Docs'')), (js ''url'', JStr (js ''https://d''))],
      JObj [], JObj [], JObj [], JObj [], JObj []]"
  have p: "list_all plainSource ?srcs"
    by (simp add: js_def)
  have e: "buildEmbed asciiEngine (js ''Stake AERO in the vault.'') ?srcs
     = Inr \<lparr> description = js ''Stake AERO in the vault.'',
             sourcesField = Some (join [0x000A]
               [[0x2022] @ js '' [Docs](https://d)'', [0x2022] @ js '' [Source](#)'',
                [0x2022] @ js '' [Source](#)'', [0x2022] @ js '' [Source](#)'',
                [0x2022] @ js '' [Source](#)'']) \<rparr>"
    by (simp add: buildEmbed_def sourceLines_def sourceLine_def fieldOf_def either_def js_def)
  have r: "buildResponse asciiEngine (js ''u1'') (js ''how?'') (js ''Stake AERO in the vault.'') ?srcs
     = Inr (js ''<@u1>'' @ [0x000A, 0x000A] @ js ''**how?**'' @ [0x000A, 0x000A]
            @ js ''Stake AERO in the vault.'' @ sourcesHeading @ js ''https://d'')"
    by (simp add: buildResponse_def composeResponse_def sourceLink_def fieldOf_def
          sourcesHeading_def js_def)
  from format_limits [of asciiEngine "js ''Stake AERO in the vault.''" ?srcs "js ''u1''" "js ''how?''"]
    r have "length (js ''<@u1>'' @ [0x000A, 0x000A] @ js ''**how?**'' @ [0x000A, 0x000A]
            @ js ''Stake AERO in the vault.'' @ sourcesHeading @ js ''https://d'') \<le> 2000"
    by blast
  with p e r show ?thesis
    by blast
qed

end
